theory Spec2Isabelle
  imports Main "HOL-Library.Word"
begin

unbundle bit_operations_syntax

section \<open>The FM24C04 I2C FRAM driver\<close>

text \<open>
  A shallow embedding of \<^verbatim>\<open>FRAM_FM24CXX_I2C.cpp\<close> and its header. The class becomes a
  record of its three members, every member function a function that takes the object
  and the collaborators it touches and returns the status code next to what it changed.
  The serial debug output has no effect on the object, the bus or the pins and is left out.
\<close>

subsection \<open>Constants of the header\<close>

type_synonym byte = "8 word"
type_synonym uint16 = "16 word"
type_synonym uint32 = "32 word"

definition MAXADDRESS_04 :: int where
  "MAXADDRESS_04 = 512"

definition MANAGE_WP :: bool where
  "MANAGE_WP = False"

definition ERROR_0 :: byte where "ERROR_0 = 0"
definition ERROR_8 :: byte where "ERROR_8 = 8"
definition ERROR_9 :: byte where "ERROR_9 = 9"
definition ERROR_10 :: byte where "ERROR_10 = 10"
definition ERROR_11 :: byte where "ERROR_11 = 11"

subsection \<open>Integer promotion in the range check\<close>

text \<open>
  Both transfer primitives start with
  \<^verbatim>\<open>(framAddr >= MAXADDRESS_04) || ((framAddr + (uint16_t) items - 1) >= MAXADDRESS_04)\<close>.
  The type of the sum depends on the target. Where \<^verbatim>\<open>int\<close> has 16 bits (AVR),
  \<^verbatim>\<open>uint16_t\<close> is \<^verbatim>\<open>unsigned int\<close>, the sum is unsigned and wraps modulo 65536.
  Where \<^verbatim>\<open>int\<close> has 32 bits (ARM, ESP), both operands are promoted to \<^verbatim>\<open>int\<close> and
  the sum is a signed value that cannot overflow here. The width is a parameter of the model.
\<close>

datatype int_width = Int16 | Int32

definition end_address :: "int_width \<Rightarrow> uint16 \<Rightarrow> byte \<Rightarrow> int" where
  "end_address iw framAddr items =
     (case iw of
        Int16 \<Rightarrow> uint (framAddr + ucast items - 1)
      | Int32 \<Rightarrow> uint framAddr + uint items - 1)"

definition out_of_range :: "int_width \<Rightarrow> uint16 \<Rightarrow> byte \<Rightarrow> bool" where
  "out_of_range iw framAddr items \<longleftrightarrow>
     uint framAddr \<ge> MAXADDRESS_04 \<or> end_address iw framAddr items \<ge> MAXADDRESS_04"

subsection \<open>The bus transport\<close>

text \<open>
  Modelled from the spec: the \<^verbatim>\<open>Wire\<close> object of the Arduino core is not part of the
  repository. Section 6 gives its contract: begin a transaction with a selector, queue a
  byte, end the transaction with a status code, request a read of some bytes, read one
  byte. Its state is the list of the calls made on it so far, oldest first, each with the
  value it returned where the driver uses that value. What \<^verbatim>\<open>endTransmission\<close> and
  \<^verbatim>\<open>read\<close> return is decided by the environment, an arbitrary function of the calls
  made before: every deterministic transport and device is such a function.
\<close>

datatype wire_call =
    BeginTransmission byte
  | WireWrite byte
  | EndTransmission byte
  | RequestFrom byte byte
  | WireRead int

record wire_env =
  end_status :: "wire_call list \<Rightarrow> byte"
  read_value :: "wire_call list \<Rightarrow> int"

definition Wire_beginTransmission :: "byte \<Rightarrow> wire_call list \<Rightarrow> wire_call list" where
  "Wire_beginTransmission address w = w @ [BeginTransmission address]"

definition Wire_write :: "byte \<Rightarrow> wire_call list \<Rightarrow> wire_call list" where
  "Wire_write b w = w @ [WireWrite b]"

definition Wire_endTransmission :: "wire_env \<Rightarrow> wire_call list \<Rightarrow> byte \<times> wire_call list" where
  "Wire_endTransmission E w = (let r = end_status E w in (r, w @ [EndTransmission r]))"

definition Wire_requestFrom :: "byte \<Rightarrow> byte \<Rightarrow> wire_call list \<Rightarrow> wire_call list" where
  "Wire_requestFrom address quantity w = w @ [RequestFrom address quantity]"

definition Wire_read :: "wire_env \<Rightarrow> wire_call list \<Rightarrow> int \<times> wire_call list" where
  "Wire_read E w = (let x = read_value E w in (x, w @ [WireRead x]))"

subsection \<open>The pins\<close>

text \<open>
  Modelled from the spec: \<^verbatim>\<open>pinMode\<close> and \<^verbatim>\<open>digitalWrite\<close> belong to the Arduino
  core. Section 6 has them set the direction and the level of a pin; the pins are the
  list of these calls, oldest first.
\<close>

datatype level = LOW | HIGH

datatype gpio_call = PinModeOutput int | DigitalWrite int level

subsection \<open>The object\<close>

record handle =
  i2c_addr :: byte
  wpPin :: int
  wpStatus :: bool

subsection \<open>Bit macros of Arduino.h\<close>

text \<open>
  Modelled from the spec: \<^verbatim>\<open>bitRead\<close>, \<open>bitSet\<close> and \<open>bitClear\<close> are macros of the
  Arduino core, not of the repository. Section 4.2 has them read, set and clear one bit
  of the byte. The core defines them as \<^verbatim>\<open>((value) >> (bit)) & 0x01\<close>,
  \<^verbatim>\<open>(value) |= (1UL << (bit))\<close> and \<^verbatim>\<open>(value) &= ~(1UL << (bit))\<close>, here on a
  \<^verbatim>\<open>uint8_t\<close> value.
\<close>

definition bitRead :: "byte \<Rightarrow> byte \<Rightarrow> byte" where
  "bitRead v n = drop_bit (unat n) v AND 1"

definition bitSet :: "byte \<Rightarrow> byte \<Rightarrow> byte" where
  "bitSet v n = ucast ((ucast v :: uint32) OR push_bit (unat n) 1)"

definition bitClear :: "byte \<Rightarrow> byte \<Rightarrow> byte" where
  "bitClear v n = ucast ((ucast v :: uint32) AND NOT (push_bit (unat n) 1))"

subsection \<open>Transfer primitives\<close>

text \<open>
  A caller's array \<^verbatim>\<open>uint8_t values[]\<close> is the memory behind a pointer: a function from
  the index to the byte there. The loops run over a \<^verbatim>\<open>byte\<close> counter.
\<close>

lemma unat_inc: "i < m \<Longrightarrow> unat (i + 1) = Suc (unat i)" for i m :: "'a::len word"
  by unat_arith

lemma byte_counter_step:
  "(i::byte) < items \<Longrightarrow> unat items - unat (i + 1) < unat items - unat i"
  by (simp add: unat_inc word_less_nat_alt diff_less_mono2)

function write_loop :: "(nat \<Rightarrow> byte) \<Rightarrow> byte \<Rightarrow> byte \<Rightarrow> wire_call list \<Rightarrow> wire_call list" where
  "write_loop vals i items w =
     (if i < items then write_loop vals (i + 1) items (Wire_write (vals (unat i)) w) else w)"
  by pat_completeness auto
termination
  by (relation "measure (\<lambda>(vals, i, items, w). unat items - unat i)")
     (simp_all add: byte_counter_step)

definition writeArray ::
  "int_width \<Rightarrow> wire_env \<Rightarrow> handle \<Rightarrow> uint16 \<Rightarrow> byte \<Rightarrow> (nat \<Rightarrow> byte) \<Rightarrow> wire_call list
     \<Rightarrow> byte \<times> wire_call list" where
  "writeArray iw E h framAddr items vals w =
     (if out_of_range iw framAddr items then (ERROR_11, w)
      else
        let w1 = Wire_beginTransmission
                   (ucast ((ucast (i2c_addr h) :: uint16) OR (drop_bit 8 framAddr AND 1))) w;
            w2 = Wire_write (ucast (framAddr AND 0xFF)) w1;
            w3 = write_loop vals 0 items w2
        in Wire_endTransmission E w3)"

definition writeByte ::
  "int_width \<Rightarrow> wire_env \<Rightarrow> handle \<Rightarrow> uint16 \<Rightarrow> byte \<Rightarrow> wire_call list \<Rightarrow> byte \<times> wire_call list" where
  "writeByte iw E h framAddr v w = writeArray iw E h framAddr 1 (\<lambda>_. v) w"

function read_loop ::
  "wire_env \<Rightarrow> byte \<Rightarrow> byte \<Rightarrow> (nat \<Rightarrow> byte) \<Rightarrow> wire_call list \<Rightarrow> (nat \<Rightarrow> byte) \<times> wire_call list" where
  "read_loop E i items vals w =
     (if i < items
      then (case Wire_read E w of
              (x, w') \<Rightarrow> read_loop E (i + 1) items (vals(unat i := word_of_int x)) w')
      else (vals, w))"
  by pat_completeness auto
termination
  by (relation "measure (\<lambda>(E, i, items, vals, w). unat items - unat i)")
     (simp_all add: byte_counter_step)

definition readArray ::
  "int_width \<Rightarrow> wire_env \<Rightarrow> handle \<Rightarrow> uint16 \<Rightarrow> byte \<Rightarrow> (nat \<Rightarrow> byte) \<Rightarrow> wire_call list
     \<Rightarrow> byte \<times> (nat \<Rightarrow> byte) \<times> wire_call list" where
  "readArray iw E h framAddr items vals w =
     (if out_of_range iw framAddr items then (ERROR_11, vals, w)
      else if items = 0 then (ERROR_8, vals, w)
      else
        let w1 = Wire_beginTransmission
                   (ucast ((ucast (i2c_addr h) :: uint16) OR (drop_bit 8 framAddr AND 1))) w;
            w2 = Wire_write (ucast (framAddr AND 0xFF)) w1;
            (result, w3) = Wire_endTransmission E w2;
            w4 = Wire_requestFrom (i2c_addr h) items w3;
            (vals', w5) = read_loop E 0 items vals w4
        in (result, vals', w5))"

text \<open>
  A local \<^verbatim>\<open>uint8_t buffer[1]\<close> is not initialised: what it holds before the read is the
  parameter \<open>junk\<close>.
\<close>

definition readByte ::
  "int_width \<Rightarrow> wire_env \<Rightarrow> handle \<Rightarrow> uint16 \<Rightarrow> byte \<Rightarrow> wire_call list
     \<Rightarrow> byte \<times> byte \<times> wire_call list" where
  "readByte iw E h framAddr junk w =
     (let (result, buffer, w') = readArray iw E h framAddr 1 (\<lambda>_. junk) w
      in (result, buffer 0, w'))"

definition copyByte ::
  "int_width \<Rightarrow> wire_env \<Rightarrow> handle \<Rightarrow> uint16 \<Rightarrow> uint16 \<Rightarrow> byte \<Rightarrow> wire_call list
     \<Rightarrow> byte \<times> wire_call list" where
  "copyByte iw E h origAddr destAddr junk w =
     (let (result, b, w1) = readByte iw E h origAddr junk w
      in writeByte iw E h destAddr b w1)"

subsection \<open>Bit accessors\<close>

definition readBit ::
  "int_width \<Rightarrow> wire_env \<Rightarrow> handle \<Rightarrow> uint16 \<Rightarrow> byte \<Rightarrow> byte \<Rightarrow> byte \<Rightarrow> wire_call list
     \<Rightarrow> byte \<times> byte \<times> wire_call list" where
  "readBit iw E h framAddr bitNb bitv junk w =
     (if bitNb > 7 then (ERROR_9, bitv, w)
      else
        let (result, buffer, w') = readArray iw E h framAddr 1 (\<lambda>_. junk) w
        in (result, bitRead (buffer 0) bitNb, w'))"

definition setOneBit ::
  "int_width \<Rightarrow> wire_env \<Rightarrow> handle \<Rightarrow> uint16 \<Rightarrow> byte \<Rightarrow> byte \<Rightarrow> wire_call list
     \<Rightarrow> byte \<times> wire_call list" where
  "setOneBit iw E h framAddr bitNb junk w =
     (if bitNb > 7 then (ERROR_9, w)
      else
        let (result, buffer, w1) = readArray iw E h framAddr 1 (\<lambda>_. junk) w;
            buffer' = buffer(0 := bitSet (buffer 0) bitNb)
        in writeArray iw E h framAddr 1 buffer' w1)"

definition clearOneBit ::
  "int_width \<Rightarrow> wire_env \<Rightarrow> handle \<Rightarrow> uint16 \<Rightarrow> byte \<Rightarrow> byte \<Rightarrow> wire_call list
     \<Rightarrow> byte \<times> wire_call list" where
  "clearOneBit iw E h framAddr bitNb junk w =
     (if bitNb > 7 then (ERROR_9, w)
      else
        let (result, buffer, w1) = readArray iw E h framAddr 1 (\<lambda>_. junk) w;
            buffer' = buffer(0 := bitClear (buffer 0) bitNb)
        in writeArray iw E h framAddr 1 buffer' w1)"

definition toggleBit ::
  "int_width \<Rightarrow> wire_env \<Rightarrow> handle \<Rightarrow> uint16 \<Rightarrow> byte \<Rightarrow> byte \<Rightarrow> wire_call list
     \<Rightarrow> byte \<times> wire_call list" where
  "toggleBit iw E h framAddr bitNb junk w =
     (if bitNb > 7 then (ERROR_9, w)
      else
        let (result, buffer, w1) = readArray iw E h framAddr 1 (\<lambda>_. junk) w;
            buffer' =
              (if uint (buffer 0) AND push_bit (unat bitNb) 1 = push_bit (unat bitNb) (1::int)
               then buffer(0 := bitClear (buffer 0) bitNb)
               else buffer(0 := bitSet (buffer 0) bitNb))
        in writeArray iw E h framAddr 1 buffer' w1)"

subsection \<open>Word accessors\<close>

text \<open>
  The 16 and 32 bit accessors reinterpret the bytes of the buffer as an integer of the host.
  Every Arduino target is little-endian: byte 0 is the least significant one.
\<close>

definition readWord ::
  "int_width \<Rightarrow> wire_env \<Rightarrow> handle \<Rightarrow> uint16 \<Rightarrow> (nat \<Rightarrow> byte) \<Rightarrow> wire_call list
     \<Rightarrow> byte \<times> uint16 \<times> wire_call list" where
  "readWord iw E h framAddr junk w =
     (let (result, buffer, w') = readArray iw E h framAddr 2 junk w
      in (result, ucast (buffer 0) OR push_bit 8 (ucast (buffer 1)), w'))"

definition writeWord ::
  "int_width \<Rightarrow> wire_env \<Rightarrow> handle \<Rightarrow> uint16 \<Rightarrow> uint16 \<Rightarrow> wire_call list \<Rightarrow> byte \<times> wire_call list" where
  "writeWord iw E h framAddr v w =
     writeArray iw E h framAddr 2 (\<lambda>k. ucast (drop_bit (8 * k) v)) w"

definition readLong ::
  "int_width \<Rightarrow> wire_env \<Rightarrow> handle \<Rightarrow> uint16 \<Rightarrow> (nat \<Rightarrow> byte) \<Rightarrow> wire_call list
     \<Rightarrow> byte \<times> uint32 \<times> wire_call list" where
  "readLong iw E h framAddr junk w =
     (let (result, buffer, w') = readArray iw E h framAddr 4 junk w
      in (result,
          ucast (buffer 0) OR push_bit 8 (ucast (buffer 1)) OR push_bit 16 (ucast (buffer 2))
            OR push_bit 24 (ucast (buffer 3)),
          w'))"

definition writeLong ::
  "int_width \<Rightarrow> wire_env \<Rightarrow> handle \<Rightarrow> uint16 \<Rightarrow> uint32 \<Rightarrow> wire_call list \<Rightarrow> byte \<times> wire_call list" where
  "writeLong iw E h framAddr v w =
     writeArray iw E h framAddr 4 (\<lambda>k. ucast (drop_bit (8 * k) v)) w"

subsection \<open>Write protection\<close>

text \<open>
  \<^verbatim>\<open>MANAGE_WP\<close> is a macro of the header, \<^verbatim>\<open>false\<close> there. The functions take it as
  their first argument, so that both branches of the code are in the model.
\<close>

definition getWPStatus :: "handle \<Rightarrow> bool" where
  "getWPStatus h = wpStatus h"

definition enableWP :: "bool \<Rightarrow> handle \<Rightarrow> gpio_call list \<Rightarrow> byte \<times> handle \<times> gpio_call list" where
  "enableWP manage h g =
     (if manage then (ERROR_0, h\<lparr>wpStatus := True\<rparr>, g @ [DigitalWrite (wpPin h) HIGH])
      else (ERROR_10, h, g))"

definition disableWP :: "bool \<Rightarrow> handle \<Rightarrow> gpio_call list \<Rightarrow> byte \<times> handle \<times> gpio_call list" where
  "disableWP manage h g =
     (if manage then (ERROR_0, h\<lparr>wpStatus := False\<rparr>, g @ [DigitalWrite (wpPin h) LOW])
      else (ERROR_10, h, g))"

definition initWP :: "bool \<Rightarrow> bool \<Rightarrow> handle \<Rightarrow> gpio_call list \<Rightarrow> byte \<times> handle \<times> gpio_call list" where
  "initWP manage wp h g =
     (if manage
      then (let g' = g @ [PinModeOutput (wpPin h)]
            in if wp then enableWP manage h g' else disableWP manage h g')
      else (ERROR_0, h\<lparr>wpStatus := False\<rparr>, g))"

subsection \<open>Constructor\<close>

text \<open>
  The constructor's first parameter has the name of the member \<^verbatim>\<open>i2c_addr\<close> and hides
  it: \<^verbatim>\<open>i2c_addr = i2c_addr;\<close> assigns the parameter to itself. The member keeps what the
  storage of the object held before, \<open>raw\<close>. The parameter \<^verbatim>\<open>chipDensity\<close> is not used.
\<close>

definition FRAM_FM24CXX_I2C ::
  "bool \<Rightarrow> handle \<Rightarrow> byte \<Rightarrow> bool \<Rightarrow> int \<Rightarrow> uint16 \<Rightarrow> gpio_call list \<Rightarrow> handle \<times> gpio_call list" where
  "FRAM_FM24CXX_I2C manage raw i2c_addr_arg wp pin chipDensity g =
     (let i2c_addr_arg' = i2c_addr_arg;
          h = raw\<lparr>wpPin := pin\<rparr>;
          (result, h', g') = initWP manage wp h g
      in (h', g'))"

subsection \<open>Whole-device erase\<close>

lemma erase_counter_step:
  "uint (i::uint16) < MAXADDRESS_04 \<Longrightarrow> 512 - unat (i + 1) < 512 - unat i"
proof -
  assume "uint i < MAXADDRESS_04"
  then have lt: "i < 512"
    by (simp add: MAXADDRESS_04_def word_less_def)
  then have "unat i < 512"
    by (simp add: word_less_nat_alt)
  with lt show ?thesis
    by (simp add: unat_inc diff_less_mono2)
qed

function erase_loop ::
  "int_width \<Rightarrow> wire_env \<Rightarrow> handle \<Rightarrow> uint16 \<Rightarrow> byte \<Rightarrow> wire_call list \<Rightarrow> byte \<times> wire_call list" where
  "erase_loop iw E h i result w =
     (if uint i < MAXADDRESS_04 \<and> result = 0
      then (case writeByte iw E h i 0 w of (result', w') \<Rightarrow> erase_loop iw E h (i + 1) result' w')
      else (result, w))"
  by pat_completeness auto
termination
proof (relation "measure (\<lambda>(iw, E, h, i, result, w). 512 - unat i)")
  show "wf (measure (\<lambda>(iw, E, h, i, result, w). 512 - unat i))"
    by (rule wf_measure)
next
  fix iw :: int_width and E :: wire_env and h :: handle and i :: uint16
    and result :: byte and w :: "wire_call list" and x :: "byte \<times> wire_call list"
    and result' :: byte and w' :: "wire_call list"
  assume "uint i < MAXADDRESS_04 \<and> result = 0"
  then have "512 - unat (i + 1) < 512 - unat i"
    by (simp add: erase_counter_step)
  then show "((iw, E, h, i + 1, result', w'), (iw, E, h, i, result, w))
      \<in> measure (\<lambda>(iw, E, h, i, result, w). 512 - unat i)"
    by (simp only: in_measure prod.case)
qed

definition eraseDevice ::
  "int_width \<Rightarrow> wire_env \<Rightarrow> handle \<Rightarrow> wire_call list \<Rightarrow> byte \<times> wire_call list" where
  "eraseDevice iw E h w = erase_loop iw E h 0 0 w"

subsection \<open>A test double for the bus: one FM24C04 behind Wire\<close>

text \<open>
  Modelled from the spec: the claims about a fault-free bus need a device, which is
  hardware. Section 4.1 has one selector bit serve as address extension over a one-byte
  sub-address, for a capacity of 512 bytes. The double below is a transport that never
  fails with one such chip on it. The chip answers two consecutive selectors: the low bit
  of the selector is the page select and picks the 256 byte half of the memory, in a read
  as in a write; the byte after the selector of a write sets the low eight bits of the
  address latch; the latch moves on by one after every byte. This is how
  \<^verbatim>\<open>writeArray\<close> addresses the chip. The \<^verbatim>\<open>Wire\<close> part queues the bytes of a
  transmission until \<^verbatim>\<open>endTransmission\<close>, and \<^verbatim>\<open>read\<close> returns -1 when no
  byte is left.
\<close>

record chip =
  cells :: "nat \<Rightarrow> byte"
  latch :: nat
  tx_address :: byte
  tx_buffer :: "byte list"
  rx_buffer :: "byte list"

definition answers :: "byte \<Rightarrow> byte \<Rightarrow> bool" where
  "answers base address \<longleftrightarrow> address AND 0xFE = base AND 0xFE"

definition page :: "byte \<Rightarrow> nat" where
  "page address = (if bit address 0 then 256 else 0)"

fun store :: "byte list \<Rightarrow> nat \<Rightarrow> (nat \<Rightarrow> byte) \<Rightarrow> (nat \<Rightarrow> byte) \<times> nat" where
  "store [] a m = (m, a)"
| "store (b # bs) a m = store bs ((a + 1) mod 512) (m(a := b))"

fun fetch :: "nat \<Rightarrow> nat \<Rightarrow> (nat \<Rightarrow> byte) \<Rightarrow> byte list" where
  "fetch 0 a m = []"
| "fetch (Suc n) a m = m a # fetch n ((a + 1) mod 512) m"

fun chip_step :: "byte \<Rightarrow> chip \<Rightarrow> wire_call \<Rightarrow> chip" where
  "chip_step base c (BeginTransmission address) = c\<lparr>tx_address := address, tx_buffer := []\<rparr>"
| "chip_step base c (WireWrite b) = c\<lparr>tx_buffer := tx_buffer c @ [b]\<rparr>"
| "chip_step base c (EndTransmission r) =
     (if answers base (tx_address c)
      then (case tx_buffer c of
              [] \<Rightarrow> c
            | a # bs \<Rightarrow>
                (case store bs (page (tx_address c) + unat a) (cells c) of
                   (m, l) \<Rightarrow> c\<lparr>cells := m, latch := l, tx_buffer := []\<rparr>))
      else c\<lparr>tx_buffer := []\<rparr>)"
| "chip_step base c (RequestFrom address quantity) =
     (if answers base address
      then (let a = page address + latch c mod 256
            in c\<lparr>rx_buffer := fetch (unat quantity) a (cells c),
                 latch := (a + unat quantity) mod 512\<rparr>)
      else c\<lparr>rx_buffer := []\<rparr>)"
| "chip_step base c (WireRead x) = c\<lparr>rx_buffer := tl (rx_buffer c)\<rparr>"

definition chip_after :: "byte \<Rightarrow> chip \<Rightarrow> wire_call list \<Rightarrow> chip" where
  "chip_after base c0 w = foldl (chip_step base) c0 w"

definition chip_env :: "byte \<Rightarrow> chip \<Rightarrow> wire_env" where
  "chip_env base c0 =
     \<lparr>end_status = (\<lambda>w. if answers base (tx_address (chip_after base c0 w)) then 0 else 2),
      read_value = (\<lambda>w. case rx_buffer (chip_after base c0 w) of [] \<Rightarrow> - 1 | x # _ \<Rightarrow> uint x)\<rparr>"

definition blank :: "(nat \<Rightarrow> byte) \<Rightarrow> chip" where
  "blank m = \<lparr>cells = m, latch = 0, tx_address = 0, tx_buffer = [], rx_buffer = []\<rparr>"

text \<open>
  The cell that a single-byte write at \<open>framAddr\<close> stores into, the cell that a single-byte
  read at \<open>framAddr\<close> fetches from, and the calls of one single-byte write transaction.
\<close>

definition write_cell :: "handle \<Rightarrow> uint16 \<Rightarrow> nat" where
  "write_cell h framAddr =
     page (i2c_addr h OR (ucast (drop_bit 8 framAddr) AND 1)) + unat (ucast framAddr :: byte)"

definition read_cell :: "handle \<Rightarrow> uint16 \<Rightarrow> nat" where
  "read_cell h framAddr = page (i2c_addr h) + unat (ucast framAddr :: byte)"

definition write_transaction :: "handle \<Rightarrow> uint16 \<Rightarrow> byte \<Rightarrow> byte \<Rightarrow> wire_call list" where
  "write_transaction h framAddr v r =
     [BeginTransmission (i2c_addr h OR (ucast (drop_bit 8 framAddr) AND 1)),
      WireWrite (ucast (framAddr AND 0xFF)), WireWrite v, EndTransmission r]"

subsection \<open>The object over its lifetime\<close>

text \<open>
  What a caller can reach: the object, the bus and the pins after the constructor and any
  sequence of calls of the public member functions. \<^verbatim>\<open>begin\<close> only prints.
\<close>

record world =
  obj :: handle
  wire :: "wire_call list"
  gpio :: "gpio_call list"

datatype request =
    Begin
  | ReadBit uint16 byte byte byte
  | SetOneBit uint16 byte byte
  | ClearOneBit uint16 byte byte
  | ToggleBit uint16 byte byte
  | ReadArray uint16 byte "nat \<Rightarrow> byte"
  | WriteArray uint16 byte "nat \<Rightarrow> byte"
  | ReadByte uint16 byte
  | WriteByte uint16 byte
  | CopyByte uint16 uint16 byte
  | ReadWord uint16 "nat \<Rightarrow> byte"
  | WriteWord uint16 uint16
  | ReadLong uint16 "nat \<Rightarrow> byte"
  | WriteLong uint16 uint32
  | GetWPStatus
  | EnableWP
  | DisableWP
  | EraseDevice

fun exec :: "bool \<Rightarrow> int_width \<Rightarrow> wire_env \<Rightarrow> request \<Rightarrow> world \<Rightarrow> world" where
  "exec manage iw E Begin s = s"
| "exec manage iw E (ReadBit framAddr bitNb bitv junk) s =
     s\<lparr>wire := snd (snd (readBit iw E (obj s) framAddr bitNb bitv junk (wire s)))\<rparr>"
| "exec manage iw E (SetOneBit framAddr bitNb junk) s =
     s\<lparr>wire := snd (setOneBit iw E (obj s) framAddr bitNb junk (wire s))\<rparr>"
| "exec manage iw E (ClearOneBit framAddr bitNb junk) s =
     s\<lparr>wire := snd (clearOneBit iw E (obj s) framAddr bitNb junk (wire s))\<rparr>"
| "exec manage iw E (ToggleBit framAddr bitNb junk) s =
     s\<lparr>wire := snd (toggleBit iw E (obj s) framAddr bitNb junk (wire s))\<rparr>"
| "exec manage iw E (ReadArray framAddr items vals) s =
     s\<lparr>wire := snd (snd (readArray iw E (obj s) framAddr items vals (wire s)))\<rparr>"
| "exec manage iw E (WriteArray framAddr items vals) s =
     s\<lparr>wire := snd (writeArray iw E (obj s) framAddr items vals (wire s))\<rparr>"
| "exec manage iw E (ReadByte framAddr junk) s =
     s\<lparr>wire := snd (snd (readByte iw E (obj s) framAddr junk (wire s)))\<rparr>"
| "exec manage iw E (WriteByte framAddr v) s =
     s\<lparr>wire := snd (writeByte iw E (obj s) framAddr v (wire s))\<rparr>"
| "exec manage iw E (CopyByte origAddr destAddr junk) s =
     s\<lparr>wire := snd (copyByte iw E (obj s) origAddr destAddr junk (wire s))\<rparr>"
| "exec manage iw E (ReadWord framAddr junk) s =
     s\<lparr>wire := snd (snd (readWord iw E (obj s) framAddr junk (wire s)))\<rparr>"
| "exec manage iw E (WriteWord framAddr v) s =
     s\<lparr>wire := snd (writeWord iw E (obj s) framAddr v (wire s))\<rparr>"
| "exec manage iw E (ReadLong framAddr junk) s =
     s\<lparr>wire := snd (snd (readLong iw E (obj s) framAddr junk (wire s)))\<rparr>"
| "exec manage iw E (WriteLong framAddr v) s =
     s\<lparr>wire := snd (writeLong iw E (obj s) framAddr v (wire s))\<rparr>"
| "exec manage iw E GetWPStatus s = s"
| "exec manage iw E EnableWP s =
     (case enableWP manage (obj s) (gpio s) of (result, h, g) \<Rightarrow> s\<lparr>obj := h, gpio := g\<rparr>)"
| "exec manage iw E DisableWP s =
     (case disableWP manage (obj s) (gpio s) of (result, h, g) \<Rightarrow> s\<lparr>obj := h, gpio := g\<rparr>)"
| "exec manage iw E EraseDevice s =
     s\<lparr>wire := snd (eraseDevice iw E (obj s) (wire s))\<rparr>"

inductive reachable :: "bool \<Rightarrow> int_width \<Rightarrow> wire_env \<Rightarrow> world \<Rightarrow> bool"
  for manage :: bool and iw :: int_width and E :: wire_env where
  constructed:
    "FRAM_FM24CXX_I2C manage raw address wp pin chipDensity g = (h, g')
       \<Longrightarrow> reachable manage iw E \<lparr>obj = h, wire = w, gpio = g'\<rparr>"
| called:
    "reachable manage iw E s \<Longrightarrow> reachable manage iw E (exec manage iw E r s)"

subsection \<open>The erase as the specification words it\<close>

text \<open>
  The specification describes the erase as a walk over the addresses in ascending order
  that writes \<open>0x00\<close> with the single-byte write and stops at the first status that is
  not zero. \<open>erase_spec\<close> is that description, to be compared with \<open>eraseDevice\<close>.
\<close>

fun erase_spec ::
  "int_width \<Rightarrow> wire_env \<Rightarrow> handle \<Rightarrow> nat list \<Rightarrow> wire_call list \<Rightarrow> byte \<times> wire_call list" where
  "erase_spec iw E h [] w = (0, w)"
| "erase_spec iw E h (a # as) w =
     (case writeByte iw E h (of_nat a) 0 w of
        (result, w') \<Rightarrow> if result \<noteq> 0 then (result, w') else erase_spec iw E h as w')"

subsection \<open>Concrete inputs\<close>

definition handle_0x50 :: handle where
  "handle_0x50 = \<lparr>i2c_addr = 0x50, wpPin = 13, wpStatus = False\<rparr>"

definition raw_storage :: handle where
  "raw_storage = \<lparr>i2c_addr = 0, wpPin = 0, wpStatus = True\<rparr>"

definition two_pages :: "nat \<Rightarrow> byte" where
  "two_pages a = (if a < 256 then 0x11 else 0x22)"

definition chip_0x50 :: wire_env where
  "chip_0x50 = chip_env 0x50 (blank two_pages)"

definition deaf_reads :: wire_env where
  "deaf_reads = \<lparr>end_status = (\<lambda>w. 0), read_value = (\<lambda>w. - 1)\<rparr>"

definition two_pages_read :: "wire_call list \<Rightarrow> int" where
  "two_pages_read w = 0x22"

definition counting :: "nat \<Rightarrow> byte" where
  "counting k = of_nat k + 5"

section \<open>Properties\<close>

subsection \<open>The range check\<close>

lemma uint_byte_less: "uint (b::byte) < 256"
  using uint_bounded [of b] by simp

lemma uint_byte_pos: "(b::byte) \<noteq> 0 \<Longrightarrow> 0 < uint b"
  by (simp add: word_neq_0_conv word_less_def)

lemma end_address_Int32: "end_address Int32 framAddr items = uint framAddr + uint items - 1"
  by (simp add: end_address_def)

lemma ucast_items: "uint (ucast (items::byte) :: uint16) = uint items"
  by (simp add: uint_up_ucast is_up)

lemma end_address_Int16:
  "uint framAddr < 512 \<Longrightarrow> items \<noteq> 0
     \<Longrightarrow> end_address Int16 framAddr items = uint framAddr + uint items - 1"
proof -
  assume a: "uint framAddr < 512" and b: "items \<noteq> 0"
  have "uint (framAddr + ucast items - 1) = (uint framAddr + uint items - 1) mod 65536"
    by (simp add: uint_word_ariths ucast_items mod_simps)
  moreover have "0 \<le> uint framAddr + uint items - 1"
    using uint_byte_pos [OF b] uint_ge_0 [of framAddr] by linarith
  moreover have "uint framAddr + uint items - 1 < 65536"
    using a uint_byte_less [of items] by simp
  ultimately show ?thesis
    by (simp add: end_address_def)
qed

lemma out_of_range_iff:
  "items \<noteq> 0 \<Longrightarrow> out_of_range iw framAddr items \<longleftrightarrow> MAXADDRESS_04 < uint framAddr + uint items"
proof (cases "uint framAddr < 512")
  case True
  assume "items \<noteq> 0"
  with True have "end_address iw framAddr items = uint framAddr + uint items - 1"
    by (cases iw) (simp_all add: end_address_Int16 end_address_Int32)
  with True show ?thesis
    by (auto simp: out_of_range_def MAXADDRESS_04_def)
next
  case False
  assume "items \<noteq> 0"
  then have "0 < uint items" by (rule uint_byte_pos)
  with False show ?thesis
    by (simp add: out_of_range_def MAXADDRESS_04_def)
qed


subsection \<open>The loops as traces\<close>

declare write_loop.simps [simp del] read_loop.simps [simp del] erase_loop.simps [simp del]

lemma write_loop_trace:
  "write_loop vals i items w = w @ map (\<lambda>k. WireWrite (vals k)) [unat i..<unat items]"
proof (induction vals i items w rule: write_loop.induct)
  case (1 vals i items w)
  show ?case
  proof (cases "i < items")
    case True
    then have lt: "unat i < unat items"
      by (simp add: word_less_nat_alt)
    have "write_loop vals i items w = write_loop vals (i + 1) items (Wire_write (vals (unat i)) w)"
      using True by (subst write_loop.simps) simp
    also have "\<dots> = Wire_write (vals (unat i)) w
        @ map (\<lambda>k. WireWrite (vals k)) [unat (i + 1)..<unat items]"
      using True by (rule "1.IH")
    also have "\<dots> = w @ map (\<lambda>k. WireWrite (vals k)) [unat i..<unat items]"
      using lt by (simp add: Wire_write_def unat_inc [OF True] upt_conv_Cons)
    finally show ?thesis .
  next
    case False
    then have "unat items \<le> unat i"
      by (simp add: word_less_nat_alt)
    with False show ?thesis
      by (subst write_loop.simps) simp
  qed
qed

lemma read_loop_one:
  "read_loop E 0 1 vals w =
     (vals(0 := word_of_int (read_value E w)), w @ [WireRead (read_value E w)])"
proof -
  have "read_loop E 0 1 vals w =
      read_loop E 1 1 (vals(0 := word_of_int (read_value E w))) (w @ [WireRead (read_value E w)])"
    by (subst read_loop.simps) (simp add: Wire_read_def Let_def)
  also have "\<dots> = (vals(0 := word_of_int (read_value E w)), w @ [WireRead (read_value E w)])"
    by (subst read_loop.simps) simp
  finally show ?thesis .
qed

lemma selector_byte:
  "ucast ((ucast (a::byte) :: uint16) OR (drop_bit 8 (f::uint16) AND 1)) =
     a OR (ucast (drop_bit 8 f) AND 1)"
  by (rule bit_word_eqI) (auto simp: bit_simps)

lemma sub_address_byte: "(ucast ((f::uint16) AND 0xFF) :: byte) = ucast f"
proof -
  have "(0xFF::uint16) = mask 8"
    by (simp add: mask_eq_exp_minus_1)
  then have "(ucast (f AND 0xFF) :: byte) = ucast (f AND mask 8)"
    by simp
  also have "\<dots> = ucast f"
    by (rule bit_word_eqI) (auto simp: bit_simps)
  finally show ?thesis .
qed

lemma writeArray_in_range:
  assumes "items \<noteq> 0" and "uint framAddr + uint items \<le> MAXADDRESS_04"
  shows "writeArray iw E h framAddr items vals w =
     (end_status E
        (w @ BeginTransmission (i2c_addr h OR (ucast (drop_bit 8 framAddr) AND 1))
           # WireWrite (ucast framAddr)
           # map (\<lambda>k. WireWrite (vals k)) [0..<unat items]),
      w @ BeginTransmission (i2c_addr h OR (ucast (drop_bit 8 framAddr) AND 1))
           # WireWrite (ucast framAddr)
           # map (\<lambda>k. WireWrite (vals k)) [0..<unat items]
        @ [EndTransmission (end_status E
             (w @ BeginTransmission (i2c_addr h OR (ucast (drop_bit 8 framAddr) AND 1))
                # WireWrite (ucast framAddr)
                # map (\<lambda>k. WireWrite (vals k)) [0..<unat items]))])"
proof -
  have "\<not> out_of_range iw framAddr items"
    using assms by (simp add: out_of_range_iff)
  then show ?thesis
    by (simp add: writeArray_def write_loop_trace selector_byte sub_address_byte
        Wire_beginTransmission_def Wire_write_def Wire_endTransmission_def Let_def)
qed

lemma readArray_status:
  assumes "items \<noteq> 0" and "uint framAddr + uint items \<le> MAXADDRESS_04"
  shows "fst (readArray iw E h framAddr items vals w) =
     end_status E
       (w @ [BeginTransmission (i2c_addr h OR (ucast (drop_bit 8 framAddr) AND 1)),
             WireWrite (ucast framAddr)])"
proof -
  have "\<not> out_of_range iw framAddr items"
    using assms by (simp add: out_of_range_iff)
  then show ?thesis
    using assms(1)
    by (simp add: readArray_def selector_byte sub_address_byte case_prod_beta
        Wire_beginTransmission_def Wire_write_def Wire_endTransmission_def Let_def)
qed


text \<open>
  Claim C1. A request of one to 255 bytes that ends beyond the capacity
  (\<open>addr + length > 512\<close>; this covers \<open>addr \<ge> 512\<close>) makes \<open>writeArray\<close> and
  \<open>readArray\<close> return \<open>ERROR_11\<close>, address out of range. The list of transport calls is
  the one before the call, so nothing was sent on the bus, and the caller's buffer is
  untouched. This holds for either width of \<^verbatim>\<open>int\<close>, any transport and any object.
\<close>

theorem out_of_range_request_rejected:
  assumes "items \<noteq> 0" and "MAXADDRESS_04 < uint framAddr + uint items"
  shows "writeArray iw E h framAddr items vals w = (ERROR_11, w)
       \<and> readArray iw E h framAddr items vals w = (ERROR_11, vals, w)"
proof -
  have "out_of_range iw framAddr items"
    using assms by (simp add: out_of_range_iff)
  then show ?thesis
    by (simp add: writeArray_def readArray_def)
qed

theorem out_of_range_request_rejected_witness:
  "(2::byte) \<noteq> 0 \<and> MAXADDRESS_04 < uint (511::uint16) + uint (2::byte)
     \<and> writeArray Int16 chip_0x50 handle_0x50 511 2 counting [] = (ERROR_11, [])
     \<and> readArray Int16 chip_0x50 handle_0x50 511 2 counting [] = (ERROR_11, counting, [])"
proof -
  have a: "(2::byte) \<noteq> 0" by simp
  have b: "MAXADDRESS_04 < uint (511::uint16) + uint (2::byte)"
    by (simp add: MAXADDRESS_04_def)
  show ?thesis
    using a b out_of_range_request_rejected [OF a b, of Int16 chip_0x50 handle_0x50 counting "[]"]
    by simp
qed

text \<open>
  Claim C3. For a request in range (one to 255 bytes, \<open>addr + length - 1 < 512\<close>)
  \<open>writeArray\<close> adds exactly one transaction to the transport calls:
  \<^verbatim>\<open>beginTransmission\<close> with the selector \<open>i2c_addr OR ((addr >> 8) AND 1)\<close>, one write
  of the sub-address \<open>addr AND 0xFF\<close>, one write per data byte in the order of the buffer,
  and one \<^verbatim>\<open>endTransmission\<close>. The status returned is the value that
  \<^verbatim>\<open>endTransmission\<close> returned, whatever it is, and nothing follows it: no retry.
\<close>

theorem in_range_write_is_one_transaction:
  assumes "items \<noteq> 0" and "uint framAddr + uint items - 1 < MAXADDRESS_04"
  shows "writeArray iw E h framAddr items vals w =
     (end_status E
        (w @ BeginTransmission (i2c_addr h OR (ucast (drop_bit 8 framAddr) AND 1))
           # WireWrite (ucast (framAddr AND 0xFF))
           # map (\<lambda>k. WireWrite (vals k)) [0..<unat items]),
      w @ BeginTransmission (i2c_addr h OR (ucast (drop_bit 8 framAddr) AND 1))
           # WireWrite (ucast (framAddr AND 0xFF))
           # map (\<lambda>k. WireWrite (vals k)) [0..<unat items]
        @ [EndTransmission (end_status E
             (w @ BeginTransmission (i2c_addr h OR (ucast (drop_bit 8 framAddr) AND 1))
                # WireWrite (ucast (framAddr AND 0xFF))
                # map (\<lambda>k. WireWrite (vals k)) [0..<unat items]))])"
proof -
  have "uint framAddr + uint items \<le> MAXADDRESS_04"
    using assms(2) by simp
  from writeArray_in_range [OF assms(1) this] show ?thesis
    by (simp only: sub_address_byte)
qed

theorem in_range_write_is_one_transaction_witness:
  "(2::byte) \<noteq> 0 \<and> uint (0x1FE::uint16) + uint (2::byte) - 1 < MAXADDRESS_04
     \<and> writeArray Int16 chip_0x50 handle_0x50 0x1FE 2 counting [] =
         (0, [BeginTransmission 0x51, WireWrite 0xFE, WireWrite 5, WireWrite 6, EndTransmission 0])"
proof -
  have a: "(2::byte) \<noteq> 0" by simp
  have b: "uint (0x1FE::uint16) + uint (2::byte) - 1 < MAXADDRESS_04"
    by (simp add: MAXADDRESS_04_def)
  have c: "[0..<2] = [0, 1::nat]"
    by code_simp
  show ?thesis
    using a b
      in_range_write_is_one_transaction [OF a b, of Int16 chip_0x50 handle_0x50 counting "[]"]
    by (simp add: c chip_0x50_def chip_env_def chip_after_def handle_0x50_def counting_def
        answers_def blank_def)
qed

lemma readArray_empty_request:
  assumes "uint framAddr < MAXADDRESS_04" and "iw = Int32 \<or> framAddr \<noteq> 0"
  shows "readArray iw E h framAddr 0 vals w = (ERROR_8, vals, w)"
proof -
  have "end_address iw framAddr 0 = uint framAddr - 1"
  proof (cases iw)
    case Int16
    with assms(2) have "framAddr \<noteq> 0" by simp
    then have "1 \<le> framAddr"
      by (simp add: word_le_def word_neq_0_conv word_less_def)
    then have "uint (framAddr - 1) = uint framAddr - 1"
      by (simp add: uint_minus_simple_alt)
    with Int16 show ?thesis by (simp add: end_address_def)
  next
    case Int32
    then show ?thesis by (simp add: end_address_def)
  qed
  with assms(1) have "\<not> out_of_range iw framAddr 0"
    by (simp add: out_of_range_def)
  then show ?thesis
    by (simp add: readArray_def)
qed

lemma uint16_minus_one: "uint (- 1 :: uint16) = 65535"
  by (simp add: unsigned_minus_1_eq_mask mask_eq_exp_minus_1)

text \<open>
  Claim C4 says that \<open>readArray\<close> with a length of zero returns \<open>ERROR_8\<close>, empty
  request, at every address below the capacity. The code does so at every such address
  where \<^verbatim>\<open>int\<close> has 32 bits, and at every address but 0 where it has 16 bits
  (lemma \<open>readArray_empty_request\<close>). At address 0 with a 16 bit \<^verbatim>\<open>int\<close> the sum
  \<open>0 + 0 - 1\<close> of the range check wraps to 65535 and the call returns \<open>ERROR_11\<close>
  before the length is looked at.
\<close>

theorem empty_read_at_zero_on_16_bit_int:
  "readArray Int16 E h 0 0 vals w = (ERROR_11, vals, w)
   \<and> readArray Int32 E h 0 0 vals w = (ERROR_8, vals, w)
   \<and> ERROR_11 \<noteq> ERROR_8"
  by (simp add: readArray_def out_of_range_def end_address_def MAXADDRESS_04_def
      ERROR_11_def ERROR_8_def uint16_minus_one)

text \<open>
  Claim C5. For a read in range of at least one byte, the status that \<open>readArray\<close> returns
  is the value \<^verbatim>\<open>endTransmission\<close> returned for the address phase (selector and
  sub-address). What the read phase returns has no part in it: replacing the answers of
  \<^verbatim>\<open>read\<close> by any others, failed reads among them, leaves the status as it is.
\<close>

theorem read_status_is_address_phase_status:
  assumes "items \<noteq> 0" and "uint framAddr + uint items - 1 < MAXADDRESS_04"
  shows "fst (readArray iw E h framAddr items vals w) =
           end_status E
             (w @ [BeginTransmission (i2c_addr h OR (ucast (drop_bit 8 framAddr) AND 1)),
                   WireWrite (ucast (framAddr AND 0xFF))])
       \<and> fst (readArray iw (E\<lparr>read_value := rv\<rparr>) h framAddr items vals w) =
           fst (readArray iw E h framAddr items vals w)"
proof -
  have "uint framAddr + uint items \<le> MAXADDRESS_04"
    using assms(2) by simp
  then show ?thesis
    using assms(1) by (simp add: readArray_status sub_address_byte)
qed

theorem read_status_is_address_phase_status_witness:
  "(2::byte) \<noteq> 0 \<and> uint (0x1FE::uint16) + uint (2::byte) - 1 < MAXADDRESS_04
     \<and> fst (readArray Int32 deaf_reads handle_0x50 0x1FE 2 counting []) = 0
     \<and> fst (readArray Int32 (deaf_reads\<lparr>read_value := two_pages_read\<rparr>) handle_0x50 0x1FE 2 counting [])
         = fst (readArray Int32 deaf_reads handle_0x50 0x1FE 2 counting [])"
proof -
  have a: "(2::byte) \<noteq> 0" by simp
  have b: "uint (0x1FE::uint16) + uint (2::byte) - 1 < MAXADDRESS_04"
    by (simp add: MAXADDRESS_04_def)
  show ?thesis
    using a b
      read_status_is_address_phase_status
        [OF a b, of Int32 deaf_reads handle_0x50 counting "[]" two_pages_read]
    by (simp add: deaf_reads_def)
qed

text \<open>
  Claim C7. With a bit index above 7, \<open>readBit\<close>, \<open>setOneBit\<close>, \<open>clearOneBit\<close> and
  \<open>toggleBit\<close> return \<open>ERROR_9\<close>, bit position out of range, at every address. The
  transport calls are the ones before the call, \<open>readBit\<close> leaves the caller's bit as it
  was, and the cells of a chip on the bus are what they were.
\<close>

theorem bit_index_out_of_range:
  assumes "7 < bitNb"
  shows "readBit iw E h framAddr bitNb bitv junk w = (ERROR_9, bitv, w)
       \<and> setOneBit iw E h framAddr bitNb junk w = (ERROR_9, w)
       \<and> clearOneBit iw E h framAddr bitNb junk w = (ERROR_9, w)
       \<and> toggleBit iw E h framAddr bitNb junk w = (ERROR_9, w)
       \<and> cells (chip_after base c0 (snd (snd (readBit iw E h framAddr bitNb bitv junk w)))) =
           cells (chip_after base c0 w)
       \<and> cells (chip_after base c0 (snd (setOneBit iw E h framAddr bitNb junk w))) =
           cells (chip_after base c0 w)
       \<and> cells (chip_after base c0 (snd (clearOneBit iw E h framAddr bitNb junk w))) =
           cells (chip_after base c0 w)
       \<and> cells (chip_after base c0 (snd (toggleBit iw E h framAddr bitNb junk w))) =
           cells (chip_after base c0 w)"
  using assms by (simp add: readBit_def setOneBit_def clearOneBit_def toggleBit_def)

theorem bit_index_out_of_range_witness:
  "(7::byte) < 8
     \<and> readBit Int16 chip_0x50 handle_0x50 3 8 1 0 [] = (ERROR_9, 1, [])
     \<and> setOneBit Int16 chip_0x50 handle_0x50 3 8 0 [] = (ERROR_9, [])
     \<and> clearOneBit Int16 chip_0x50 handle_0x50 3 8 0 [] = (ERROR_9, [])
     \<and> toggleBit Int16 chip_0x50 handle_0x50 3 8 0 [] = (ERROR_9, [])"
proof -
  have a: "(7::byte) < 8" by simp
  show ?thesis
    using a bit_index_out_of_range [OF a, of Int16 chip_0x50 handle_0x50 3 1 0 "[]"]
    by simp
qed

subsection \<open>Write protection and the constructor\<close>

lemma constructed_unmanaged:
  "\<not> manage \<Longrightarrow> FRAM_FM24CXX_I2C manage raw address wp pin chipDensity g = (h, g')
     \<Longrightarrow> \<not> wpStatus h"
  by (auto simp: FRAM_FM24CXX_I2C_def initWP_def Let_def)

lemma exec_unmanaged: "\<not> manage \<Longrightarrow> obj (exec manage iw E r s) = obj s"
  by (cases r) (simp_all add: enableWP_def disableWP_def)

lemma reachable_unmanaged:
  "reachable manage iw E s \<Longrightarrow> \<not> manage \<Longrightarrow> \<not> wpStatus (obj s)"
proof (induction rule: reachable.induct)
  case (constructed raw address wp pin chipDensity g h g' w)
  then show ?case
    by (simp add: constructed_unmanaged)
next
  case (called s r)
  then show ?case
    by (simp add: exec_unmanaged)
qed

text \<open>
  Claim C9. Where write protection is not managed, every state that the constructor and
  the public functions can reach has \<open>wpStatus\<close> false, so \<open>getWPStatus\<close> returns
  false; \<open>enableWP\<close> and \<open>disableWP\<close> return \<open>ERROR_10\<close>, operation not permitted,
  and leave the object and the pin calls as they are: no pin is written and \<open>wpStatus\<close>
  keeps its value.
\<close>

theorem unmanaged_write_protect:
  assumes "\<not> manage" and "reachable manage iw E s"
  shows "enableWP manage (obj s) (gpio s) = (ERROR_10, obj s, gpio s)
       \<and> disableWP manage (obj s) (gpio s) = (ERROR_10, obj s, gpio s)
       \<and> exec manage iw E EnableWP s = s
       \<and> exec manage iw E DisableWP s = s
       \<and> getWPStatus (obj s) = False"
  using assms reachable_unmanaged [OF assms(2) assms(1)]
  by (simp add: enableWP_def disableWP_def getWPStatus_def)

theorem unmanaged_write_protect_witness:
  "\<not> MANAGE_WP
     \<and> reachable MANAGE_WP Int32 chip_0x50
         (exec MANAGE_WP Int32 chip_0x50 EnableWP
            \<lparr>obj = fst (FRAM_FM24CXX_I2C MANAGE_WP raw_storage 0x50 True 13 512 []), wire = [],
               gpio = snd (FRAM_FM24CXX_I2C MANAGE_WP raw_storage 0x50 True 13 512 [])\<rparr>)
     \<and> enableWP MANAGE_WP
           (obj (exec MANAGE_WP Int32 chip_0x50 EnableWP
              \<lparr>obj = fst (FRAM_FM24CXX_I2C MANAGE_WP raw_storage 0x50 True 13 512 []), wire = [],
                 gpio = snd (FRAM_FM24CXX_I2C MANAGE_WP raw_storage 0x50 True 13 512 [])\<rparr>)) []
         = (ERROR_10, raw_storage\<lparr>wpPin := 13, wpStatus := False\<rparr>, [])
     \<and> getWPStatus
           (obj (exec MANAGE_WP Int32 chip_0x50 EnableWP
              \<lparr>obj = fst (FRAM_FM24CXX_I2C MANAGE_WP raw_storage 0x50 True 13 512 []), wire = [],
                 gpio = snd (FRAM_FM24CXX_I2C MANAGE_WP raw_storage 0x50 True 13 512 [])\<rparr>))
         = False"
proof -
  have a: "\<not> MANAGE_WP"
    by (simp add: MANAGE_WP_def)
  have b: "reachable MANAGE_WP Int32 chip_0x50
         (exec MANAGE_WP Int32 chip_0x50 EnableWP
            \<lparr>obj = fst (FRAM_FM24CXX_I2C MANAGE_WP raw_storage 0x50 True 13 512 []), wire = [],
               gpio = snd (FRAM_FM24CXX_I2C MANAGE_WP raw_storage 0x50 True 13 512 [])\<rparr>)"
    by (rule reachable.called, rule reachable.constructed) (rule prod.collapse [symmetric])
  show ?thesis
    using a b unmanaged_write_protect [OF a b]
    by (simp add: FRAM_FM24CXX_I2C_def initWP_def MANAGE_WP_def enableWP_def)
qed

lemma exec_i2c_addr: "i2c_addr (obj (exec manage iw E r s)) = i2c_addr (obj s)"
  by (cases r) (simp_all add: enableWP_def disableWP_def)


lemma writeArray_grows:
  assumes "items \<noteq> 0" and "uint framAddr + uint items \<le> MAXADDRESS_04"
  shows "snd (writeArray iw E h framAddr items vals w) \<noteq> w"
  by (simp add: writeArray_in_range [OF assms])

text \<open>
  Claim C10 says that the constructed object holds the selector passed as first parameter
  and that the bound of the range check is the \<^verbatim>\<open>chipDensity\<close> passed. Neither holds:
  constructed over storage that holds selector 0 with the parameters \<open>0x50\<close> and 2048,
  the object's \<open>i2c_addr\<close> is not \<open>0x50\<close>, and a write of one byte at address 600,
  below 2048, is rejected as out of range.
\<close>

theorem constructor_counterexample:
  "i2c_addr (fst (FRAM_FM24CXX_I2C MANAGE_WP raw_storage 0x50 False 13 2048 [])) \<noteq> 0x50
     \<and> uint (600::uint16) + uint (1::byte) \<le> 2048
     \<and> writeArray Int32 chip_0x50
           (fst (FRAM_FM24CXX_I2C MANAGE_WP raw_storage 0x50 False 13 2048 [])) 600 1 counting []
         = (ERROR_11, [])"
  by (simp add: FRAM_FM24CXX_I2C_def initWP_def MANAGE_WP_def raw_storage_def
      writeArray_def out_of_range_def MAXADDRESS_04_def)

text \<open>
  Claim C10 as amended. The constructor does not use \<^verbatim>\<open>chipDensity\<close>: the object is the
  same whatever density is passed, and it holds the pin passed as \<open>wpPin\<close>. The bound
  of the range check is the constant \<open>MAXADDRESS_04 = 512\<close> for every constructed object:
  a write of at least one byte is rejected with no bus call exactly when
  \<open>addr + length > 512\<close>. No public function changes \<open>i2c_addr\<close> or \<open>wpPin\<close> of the
  object. What \<open>i2c_addr\<close> holds after construction is not part of this statement.
\<close>

theorem capacity_is_constant_and_handle_fixed:
  "FRAM_FM24CXX_I2C manage raw address wp pin chipDensity g =
     FRAM_FM24CXX_I2C manage raw address wp pin chipDensity' g
   \<and> wpPin (fst (FRAM_FM24CXX_I2C manage raw address wp pin chipDensity g)) = pin
   \<and> MAXADDRESS_04 = 512
   \<and> (items \<noteq> 0 \<longrightarrow>
        (writeArray iw E (fst (FRAM_FM24CXX_I2C manage raw address wp pin chipDensity g))
             framAddr items vals w = (ERROR_11, w)
           \<longleftrightarrow> MAXADDRESS_04 < uint framAddr + uint items))
   \<and> i2c_addr (obj (exec manage iw E r s)) = i2c_addr (obj s)
   \<and> wpPin (obj (exec manage iw E r s)) = wpPin (obj s)"
proof -
  have pin: "wpPin (fst (FRAM_FM24CXX_I2C manage raw address wp pin chipDensity g)) = pin"
    by (simp add: FRAM_FM24CXX_I2C_def initWP_def enableWP_def disableWP_def Let_def)
  have same: "FRAM_FM24CXX_I2C manage raw address wp pin chipDensity g =
      FRAM_FM24CXX_I2C manage raw address wp pin chipDensity' g"
    by (simp add: FRAM_FM24CXX_I2C_def)
  have bound: "writeArray iw E h framAddr items vals w = (ERROR_11, w)
      \<longleftrightarrow> MAXADDRESS_04 < uint framAddr + uint items"
    if "items \<noteq> 0" for h
  proof (cases "MAXADDRESS_04 < uint framAddr + uint items")
      case True
      with that show ?thesis
        by (simp add: writeArray_def out_of_range_iff)
    next
      case False
      then have "uint framAddr + uint items \<le> MAXADDRESS_04" by simp
      from writeArray_grows [OF that this, of iw E h vals w] False show ?thesis
        by auto
  qed
  have fixed: "i2c_addr (obj (exec manage iw E r s)) = i2c_addr (obj s)
      \<and> wpPin (obj (exec manage iw E r s)) = wpPin (obj s)"
    by (cases r) (simp_all add: enableWP_def disableWP_def)
  from pin same bound fixed show ?thesis
    by (simp add: MAXADDRESS_04_def)
qed

theorem capacity_is_constant_and_handle_fixed_witness:
  "(1::byte) \<noteq> 0
   \<and> FRAM_FM24CXX_I2C MANAGE_WP raw_storage 0x50 False 13 256 [] =
       FRAM_FM24CXX_I2C MANAGE_WP raw_storage 0x50 False 13 2048 []
   \<and> \<not> MAXADDRESS_04 < uint (300::uint16) + uint (1::byte)
   \<and> writeArray Int32 chip_0x50
         (fst (FRAM_FM24CXX_I2C MANAGE_WP raw_storage 0x50 False 13 256 [])) 300 1 counting []
       \<noteq> (ERROR_11, [])
   \<and> i2c_addr (obj (exec MANAGE_WP Int32 chip_0x50 (WriteByte 300 7)
         \<lparr>obj = handle_0x50, wire = [], gpio = []\<rparr>)) = 0x50"
proof -
  have a: "(1::byte) \<noteq> 0" by simp
  have b: "\<not> MAXADDRESS_04 < uint (300::uint16) + uint (1::byte)"
    by (simp add: MAXADDRESS_04_def)
  have c: "i2c_addr (obj \<lparr>obj = handle_0x50, wire = [], gpio = []\<rparr>) = 0x50"
    by (simp add: handle_0x50_def)
  note t = capacity_is_constant_and_handle_fixed
        [where manage = MANAGE_WP and raw = raw_storage and address = "0x50" and wp = False
           and pin = 13 and chipDensity = 256 and chipDensity' = 2048 and g = "[]"
           and items = 1 and iw = Int32 and E = chip_0x50 and framAddr = 300
           and vals = counting and w = "[]" and r = "WriteByte 300 7"
           and s = "\<lparr>obj = handle_0x50, wire = [], gpio = []\<rparr>"]
  from t a b have d: "writeArray Int32 chip_0x50
         (fst (FRAM_FM24CXX_I2C MANAGE_WP raw_storage 0x50 False 13 256 [])) 300 1 counting []
       \<noteq> (ERROR_11, [])"
    by blast
  from t c have e: "i2c_addr (obj (exec MANAGE_WP Int32 chip_0x50 (WriteByte 300 7)
         \<lparr>obj = handle_0x50, wire = [], gpio = []\<rparr>)) = 0x50"
    by (elim conjE) (simp only:)
  from t have f: "FRAM_FM24CXX_I2C MANAGE_WP raw_storage 0x50 False 13 256 [] =
       FRAM_FM24CXX_I2C MANAGE_WP raw_storage 0x50 False 13 2048 []"
    by blast
  from a b d e f show ?thesis
    by blast
qed

subsection \<open>Single bytes on the chip\<close>

lemma chip_after_append:
  "chip_after base c0 (w @ xs) = foldl (chip_step base) (chip_after base c0 w) xs"
  by (simp add: chip_after_def)

lemma byte_FE: "(0xFE::byte) = NOT 1"
  by simp

lemma answers_selector:
  "answers base (i OR (b AND 1)) \<longleftrightarrow> answers base i"
proof -
  have "(i OR (b AND 1)) AND NOT 1 = i AND NOT 1"
    by (rule bit_word_eqI) (auto simp: bit_simps)
  then show ?thesis
    by (simp only: answers_def byte_FE)
qed

lemma page_selector:
  "page (i OR (ucast (drop_bit 8 (a::uint16)) AND 1)) = (if bit i 0 \<or> bit a 8 then 256 else 0)"
  by (simp add: page_def bit_simps)

lemma writeByte_trace:
  assumes "uint framAddr < MAXADDRESS_04"
  shows "writeByte iw E h framAddr v w =
     (end_status E
        (w @ [BeginTransmission (i2c_addr h OR (ucast (drop_bit 8 framAddr) AND 1)),
              WireWrite (ucast framAddr), WireWrite v]),
      w @ [BeginTransmission (i2c_addr h OR (ucast (drop_bit 8 framAddr) AND 1)),
           WireWrite (ucast framAddr), WireWrite v,
           EndTransmission (end_status E
             (w @ [BeginTransmission (i2c_addr h OR (ucast (drop_bit 8 framAddr) AND 1)),
                   WireWrite (ucast framAddr), WireWrite v]))])"
proof -
  have a: "(1::byte) \<noteq> 0" by simp
  have b: "uint framAddr + uint (1::byte) \<le> MAXADDRESS_04"
    using assms by simp
  show ?thesis
    by (simp add: writeByte_def writeArray_in_range [OF a b])
qed

lemma readByte_trace:
  assumes "uint framAddr < MAXADDRESS_04"
  shows "readByte iw E h framAddr junk w =
     (end_status E
        (w @ [BeginTransmission (i2c_addr h OR (ucast (drop_bit 8 framAddr) AND 1)),
              WireWrite (ucast framAddr)]),
      word_of_int (read_value E
        (w @ [BeginTransmission (i2c_addr h OR (ucast (drop_bit 8 framAddr) AND 1)),
              WireWrite (ucast framAddr),
              EndTransmission (end_status E
                (w @ [BeginTransmission (i2c_addr h OR (ucast (drop_bit 8 framAddr) AND 1)),
                      WireWrite (ucast framAddr)])),
              RequestFrom (i2c_addr h) 1])),
      w @ [BeginTransmission (i2c_addr h OR (ucast (drop_bit 8 framAddr) AND 1)),
           WireWrite (ucast framAddr),
           EndTransmission (end_status E
             (w @ [BeginTransmission (i2c_addr h OR (ucast (drop_bit 8 framAddr) AND 1)),
                   WireWrite (ucast framAddr)])),
           RequestFrom (i2c_addr h) 1,
           WireRead (read_value E
             (w @ [BeginTransmission (i2c_addr h OR (ucast (drop_bit 8 framAddr) AND 1)),
                   WireWrite (ucast framAddr),
                   EndTransmission (end_status E
                     (w @ [BeginTransmission (i2c_addr h OR (ucast (drop_bit 8 framAddr) AND 1)),
                           WireWrite (ucast framAddr)])),
                   RequestFrom (i2c_addr h) 1]))])"
proof -
  have "\<not> out_of_range iw framAddr 1"
    using assms by (simp add: out_of_range_iff)
  then show ?thesis
    by (simp add: readByte_def readArray_def read_loop_one selector_byte sub_address_byte
        Wire_beginTransmission_def Wire_write_def Wire_endTransmission_def
        Wire_requestFrom_def Let_def)
qed


lemma unat_byte_less: "unat (b::byte) < 256"
  using unsigned_less [of b, where 'a = nat] by simp

lemma writeByte_chip:
  assumes "answers base (i2c_addr h)" and "uint framAddr < MAXADDRESS_04"
  shows "writeByte iw (chip_env base c0) h framAddr v w =
     (0, w @ [BeginTransmission (i2c_addr h OR (ucast (drop_bit 8 framAddr) AND 1)),
              WireWrite (ucast framAddr), WireWrite v, EndTransmission 0])"
  using assms
  by (simp add: writeByte_trace chip_env_def chip_after_append answers_selector)

lemma writeByte_chip_cells:
  assumes "answers base (i2c_addr h)" and "uint framAddr < MAXADDRESS_04"
  shows "cells (chip_after base c0 (snd (writeByte iw (chip_env base c0) h framAddr v w))) =
     (cells (chip_after base c0 w))(write_cell h framAddr := v)"
  using assms
  by (simp add: writeByte_chip chip_after_append answers_selector write_cell_def)

lemma readByte_chip:
  assumes "answers base (i2c_addr h)" and "uint framAddr < MAXADDRESS_04"
  shows "readByte iw (chip_env base c0) h framAddr junk w =
     (0, cells (chip_after base c0 w) (read_cell h framAddr),
      w @ [BeginTransmission (i2c_addr h OR (ucast (drop_bit 8 framAddr) AND 1)),
           WireWrite (ucast framAddr), EndTransmission 0, RequestFrom (i2c_addr h) 1,
           WireRead (uint (cells (chip_after base c0 w) (read_cell h framAddr)))])"
proof -
  have "(page (i2c_addr h OR (ucast (drop_bit 8 framAddr) AND 1))
      + unat (ucast framAddr :: byte)) mod 256 = unat (ucast framAddr :: byte)"
    using unat_byte_less [of "ucast framAddr"] by (simp add: page_def)
  then show ?thesis
    using assms
    by (simp add: readByte_trace chip_env_def chip_after_append answers_selector read_cell_def
        Let_def)
qed

lemma readByte_chip_cells:
  assumes "answers base (i2c_addr h)" and "uint framAddr < MAXADDRESS_04"
  shows "cells (chip_after base c0 (snd (snd (readByte iw (chip_env base c0) h framAddr junk w)))) =
     cells (chip_after base c0 w)"
  using assms
  by (simp add: readByte_chip chip_after_append answers_selector Let_def)


subsection \<open>Erase\<close>

lemma erase_loop_spec:
  "uint i \<le> MAXADDRESS_04 \<Longrightarrow>
     erase_loop iw E h i result w =
       (if result \<noteq> 0 then (result, w) else erase_spec iw E h [unat i..<512] w)"
proof (induction iw E h i result w rule: erase_loop.induct)
  case (1 iw E h i result w)
  show ?case
  proof (cases "uint i < MAXADDRESS_04 \<and> result = 0")
    case True
    then have lt: "i < 512"
      by (simp add: MAXADDRESS_04_def word_less_def)
    then have n: "unat i < 512"
      by (simp add: word_less_nat_alt)
    have suc: "unat (i + 1) = Suc (unat i)"
      using lt by (rule unat_inc)
    have "i + 1 \<le> 512"
      using lt by (rule inc_le)
    then have le: "uint (i + 1) \<le> MAXADDRESS_04"
      by (simp add: MAXADDRESS_04_def word_le_def)
    obtain r' w' where wb: "writeByte iw E h i 0 w = (r', w')"
      by (cases "writeByte iw E h i 0 w")
    have "erase_loop iw E h i result w = erase_loop iw E h (i + 1) r' w'"
      using True wb by (subst erase_loop.simps) simp
    also have "\<dots> = (if r' \<noteq> 0 then (r', w') else erase_spec iw E h [unat (i + 1)..<512] w')"
      using True wb [symmetric] le by (rule "1.IH")
    also have "\<dots> = erase_spec iw E h (unat i # [Suc (unat i)..<512]) w"
      using wb by (simp add: suc)
    also have "unat i # [Suc (unat i)..<512] = [unat i..<512]"
      using n by (simp add: upt_conv_Cons)
    finally show ?thesis
      using True by simp
  next
    case False
    show ?thesis
    proof (cases "result = 0")
      case True
      with False "1.prems" have "uint i = uint (512::uint16)"
        by (simp add: MAXADDRESS_04_def)
      then have "i = 512"
        by (simp only: word_uint_eq_iff)
      then have "unat i = 512"
        by simp
      with False True show ?thesis
        by (subst erase_loop.simps) simp
    next
      case False
      then show ?thesis
        by (subst erase_loop.simps) simp
    qed
  qed
qed

lemma eraseDevice_spec:
  "eraseDevice iw E h w = erase_spec iw E h [0..<nat MAXADDRESS_04] w"
  by (simp add: eraseDevice_def erase_loop_spec MAXADDRESS_04_def)


lemma uint_of_nat_small: "a < 512 \<Longrightarrow> uint (of_nat a :: uint16) < MAXADDRESS_04"
proof -
  assume "a < 512"
  then have "unat (of_nat a :: uint16) < unat (512 :: uint16)"
    by (simp add: unat_of_nat)
  then have "(of_nat a :: uint16) < 512"
    by (simp only: word_less_nat_alt)
  then show ?thesis
    by (simp add: word_less_def MAXADDRESS_04_def)
qed

lemma erase_spec_chip:
  assumes "answers base (i2c_addr h)"
  shows "\<forall>a \<in> set as. a < 512 \<Longrightarrow>
     erase_spec iw (chip_env base c0) h as w =
       (0, w @ concat (map (\<lambda>a. write_transaction h (of_nat a) 0 0) as))
     \<and> cells (chip_after base c0 (snd (erase_spec iw (chip_env base c0) h as w))) =
         (\<lambda>p. if p \<in> (\<lambda>a. write_cell h (of_nat a)) ` set as then 0
              else cells (chip_after base c0 w) p)"
proof (induction as arbitrary: w)
  case Nil
  then show ?case by simp
next
  case (Cons a as)
  then have a: "uint (of_nat a :: uint16) < MAXADDRESS_04"
    by (simp add: uint_of_nat_small)
  let ?w' = "w @ write_transaction h (of_nat a) 0 0"
  have wb: "writeByte iw (chip_env base c0) h (of_nat a) 0 w = (0, ?w')"
    using assms a by (simp add: writeByte_chip write_transaction_def sub_address_byte)
  have cells: "cells (chip_after base c0 ?w') =
      (cells (chip_after base c0 w))(write_cell h (of_nat a) := 0)"
    using writeByte_chip_cells [OF assms a, where iw = iw and ?c0.0 = c0 and v = 0 and w = w]
    by (simp add: wb)
  have step: "erase_spec iw (chip_env base c0) h (a # as) w =
      erase_spec iw (chip_env base c0) h as ?w'"
    by (simp add: wb)
  have "\<forall>a \<in> set as. a < 512"
    using Cons.prems by simp
  note IH = Cons.IH [OF this, of ?w']
  from IH have e: "erase_spec iw (chip_env base c0) h as ?w' =
      (0, ?w' @ concat (map (\<lambda>a. write_transaction h (of_nat a) 0 0) as))"
    by (rule conjunct1)
  from IH have "cells (chip_after base c0 (snd (erase_spec iw (chip_env base c0) h as ?w'))) =
      (\<lambda>p. if p \<in> (\<lambda>a. write_cell h (of_nat a)) ` set as then 0
           else cells (chip_after base c0 ?w') p)"
    by (rule conjunct2)
  then have c: "cells (chip_after base c0 (snd (erase_spec iw (chip_env base c0) h (a # as) w))) =
      (\<lambda>p. if p \<in> (\<lambda>a. write_cell h (of_nat a)) ` set as then 0
           else ((cells (chip_after base c0 w))(write_cell h (of_nat a) := 0)) p)"
    by (simp only: step cells)
  have "erase_spec iw (chip_env base c0) h (a # as) w =
      (0, w @ concat (map (\<lambda>a. write_transaction h (of_nat a) 0 0) (a # as)))"
    unfolding step e by simp
  moreover have "cells (chip_after base c0 (snd (erase_spec iw (chip_env base c0) h (a # as) w))) =
      (\<lambda>p. if p \<in> (\<lambda>a. write_cell h (of_nat a)) ` set (a # as) then 0
           else cells (chip_after base c0 w) p)"
    by (simp only: c) (auto simp: fun_eq_iff)
  ultimately show ?case
    by (rule conjI)
qed


lemma read_cell_is_written:
  "read_cell h framAddr \<in> (\<lambda>a. write_cell h (of_nat a)) ` set [0..<512]"
proof -
  let ?b = "ucast framAddr :: byte"
  have lt: "unat ?b < 512"
    using unat_byte_less [of ?b] by simp
  have "(of_nat (unat ?b) :: uint16) = ucast ?b"
    by simp
  moreover have "drop_bit 8 (ucast ?b :: uint16) = 0"
    by (rule bit_word_eqI) (auto simp: bit_simps)
  moreover have "(ucast (ucast ?b :: uint16) :: byte) = ?b"
    by (rule bit_word_eqI) (auto simp: bit_simps)
  ultimately have "write_cell h (of_nat (unat ?b)) = read_cell h framAddr"
    by (simp add: write_cell_def read_cell_def)
  then have "read_cell h framAddr = write_cell h (of_nat (unat ?b))"
    by simp
  moreover have "unat ?b \<in> set [0..<512]"
    using lt by simp
  ultimately show ?thesis
    by (rule image_eqI)
qed

lemma bit8_of_nat: "p < 512 \<Longrightarrow> bit (of_nat p :: uint16) 8 \<longleftrightarrow> 256 \<le> p"
proof -
  assume lt: "p < 512"
  have "bit (of_nat p :: uint16) 8 \<longleftrightarrow> bit p 8"
    by (simp add: bit_simps)
  also have "\<dots> \<longleftrightarrow> odd (p div 256)"
    by (simp add: bit_iff_odd)
  also have "\<dots> \<longleftrightarrow> 256 \<le> p"
  proof (cases "256 \<le> p")
    case True
    with lt have "p div 256 = 1" by simp
    with True show ?thesis by simp
  next
    case False
    then have "p div 256 = 0" by simp
    with False show ?thesis by simp
  qed
  finally show ?thesis .
qed

lemma low_of_nat: "unat (ucast (of_nat p :: uint16) :: byte) = p mod 256"
proof -
  have "(ucast (of_nat p :: uint16) :: byte) = of_nat p"
    by (rule bit_word_eqI) (auto simp: bit_simps)
  then show ?thesis
    by (simp add: unat_of_nat)
qed

lemma cell_is_written:
  assumes "\<not> bit (i2c_addr h) 0" and "p < 512"
  shows "p \<in> (\<lambda>a. write_cell h (of_nat a)) ` set [0..<512]"
proof -
  have "write_cell h (of_nat p) = p"
  proof (cases "256 \<le> p")
    case True
    with assms(2) have "p mod 256 = p - 256"
      by (simp add: mod_if)
    with True assms show ?thesis
      by (simp add: write_cell_def page_selector bit8_of_nat low_of_nat)
  next
    case False
    with assms show ?thesis
      by (simp add: write_cell_def page_selector bit8_of_nat low_of_nat)
  qed
  then have "p = write_cell h (of_nat p)"
    by simp
  moreover have "p \<in> set [0..<512]"
    using assms(2) by simp
  ultimately show ?thesis
    by (rule image_eqI)
qed


text \<open>
  Claim C6. \<open>eraseDevice\<close> is the walk of the specification over the addresses
  \<open>0, 1, \<dots>, 511\<close> in ascending order: a single-byte write of \<open>0x00\<close> at each, stopping
  at the first status that is not zero and returning it, for any transport. On a bus
  without faults (a chip that answers the object's selector) it returns 0, the transport
  calls are exactly the 512 write transactions in that order, and afterwards
  \<open>readByte\<close> returns status 0 and the value \<open>0x00\<close> at every address below 512. Where
  the page bit of the object's selector is clear, all 512 cells of the chip are \<open>0x00\<close>.
\<close>

theorem erase_device:
  "eraseDevice iw E h w = erase_spec iw E h [0..<nat MAXADDRESS_04] w
   \<and> (answers base (i2c_addr h) \<longrightarrow>
        eraseDevice iw (chip_env base c0) h w =
          (0, w @ concat (map (\<lambda>a. write_transaction h (of_nat a) 0 0) [0..<nat MAXADDRESS_04]))
      \<and> (\<forall>framAddr junk. uint framAddr < MAXADDRESS_04 \<longrightarrow>
            fst (readByte iw (chip_env base c0) h framAddr junk
                   (snd (eraseDevice iw (chip_env base c0) h w))) = 0
          \<and> fst (snd (readByte iw (chip_env base c0) h framAddr junk
                   (snd (eraseDevice iw (chip_env base c0) h w)))) = 0)
      \<and> (\<not> bit (i2c_addr h) 0 \<longrightarrow>
            (\<forall>p<512. cells (chip_after base c0 (snd (eraseDevice iw (chip_env base c0) h w))) p = 0)))"
proof (intro conjI impI allI)
  show "eraseDevice iw E h w = erase_spec iw E h [0..<nat MAXADDRESS_04] w"
    by (rule eraseDevice_spec)
next
  assume a: "answers base (i2c_addr h)"
  have n: "nat MAXADDRESS_04 = 512"
    by (simp add: MAXADDRESS_04_def)
  have small: "\<forall>a \<in> set [0..<512]. a < 512"
    by simp
  note chip = erase_spec_chip [OF a small, of iw c0 w]
  let ?w' = "snd (eraseDevice iw (chip_env base c0) h w)"
  show trace: "eraseDevice iw (chip_env base c0) h w =
      (0, w @ concat (map (\<lambda>a. write_transaction h (of_nat a) 0 0) [0..<nat MAXADDRESS_04]))"
    using chip [THEN conjunct1] by (simp only: eraseDevice_spec n)
  have cells: "cells (chip_after base c0 ?w') =
      (\<lambda>p. if p \<in> (\<lambda>a. write_cell h (of_nat a)) ` set [0..<512] then 0
           else cells (chip_after base c0 w) p)"
    using chip [THEN conjunct2] by (simp only: eraseDevice_spec n)
  {
    fix framAddr :: uint16 and junk :: byte
    assume r: "uint framAddr < MAXADDRESS_04"
    have zero: "cells (chip_after base c0 ?w') (read_cell h framAddr) = 0"
      by (simp only: cells read_cell_is_written if_True)
    show "fst (readByte iw (chip_env base c0) h framAddr junk ?w') = 0"
      by (simp add: readByte_chip [OF a r])
    show "fst (snd (readByte iw (chip_env base c0) h framAddr junk ?w')) = 0"
      using zero by (simp add: readByte_chip [OF a r])
  }
  {
    fix p :: nat
    assume "\<not> bit (i2c_addr h) 0" and "p < 512"
    then have "p \<in> (\<lambda>a. write_cell h (of_nat a)) ` set [0..<512]"
      by (rule cell_is_written)
    then show "cells (chip_after base c0 ?w') p = 0"
      by (simp only: cells if_True)
  }
qed


lemma answers_0x50: "answers 0x50 (i2c_addr handle_0x50)"
  by (simp add: answers_def handle_0x50_def)

lemma even_0x50: "\<not> bit (i2c_addr handle_0x50) 0"
  by (simp add: handle_0x50_def)

theorem erase_device_witness:
  "answers 0x50 (i2c_addr handle_0x50) \<and> \<not> bit (i2c_addr handle_0x50) 0
   \<and> uint (300::uint16) < MAXADDRESS_04 \<and> (300::nat) < 512
   \<and> fst (eraseDevice Int32 chip_0x50 handle_0x50 []) = 0
   \<and> fst (snd (readByte Int32 chip_0x50 handle_0x50 300 0x77
              (snd (eraseDevice Int32 chip_0x50 handle_0x50 [])))) = 0
   \<and> cells (chip_after 0x50 (blank two_pages)
              (snd (eraseDevice Int32 chip_0x50 handle_0x50 []))) 300 = 0"
proof -
  have c: "uint (300::uint16) < MAXADDRESS_04"
    by (simp add: MAXADDRESS_04_def)
  have d: "(300::nat) < 512"
    by simp
  note t = erase_device [where iw = Int32 and E = chip_0x50 and h = handle_0x50 and w = "[]"
      and base = "0x50" and ?c0.0 = "blank two_pages"]
  from t answers_0x50 have "eraseDevice Int32 (chip_env 0x50 (blank two_pages)) handle_0x50 [] =
      (0, [] @ concat (map (\<lambda>a. write_transaction handle_0x50 (of_nat a) 0 0)
                 [0..<nat MAXADDRESS_04]))"
    by blast
  then have e: "fst (eraseDevice Int32 chip_0x50 handle_0x50 []) = 0"
    by (simp only: chip_0x50_def fst_conv)
  from t answers_0x50 c have f: "fst (snd (readByte Int32 chip_0x50 handle_0x50 300 0x77
              (snd (eraseDevice Int32 chip_0x50 handle_0x50 [])))) = 0"
    unfolding chip_0x50_def by blast
  from t answers_0x50 even_0x50 d have g: "cells (chip_after 0x50 (blank two_pages)
              (snd (eraseDevice Int32 chip_0x50 handle_0x50 []))) 300 = 0"
    unfolding chip_0x50_def by blast
  from answers_0x50 even_0x50 c d e f g show ?thesis
    by blast
qed

subsection \<open>Write then read, and toggle\<close>

lemma writeArray_one: "writeArray iw E h framAddr 1 vals w = writeByte iw E h framAddr (vals 0) w"
  by (simp add: writeByte_def writeArray_def write_loop_trace)

lemma chip_after_Nil: "chip_after base c0 [] = c0"
  by (simp add: chip_after_def)

lemma read_cell_256: "read_cell handle_0x50 256 = 0"
  by (simp add: read_cell_def page_def handle_0x50_def)

lemma write_cell_256: "write_cell handle_0x50 256 = 256"
  by (simp add: write_cell_def page_def handle_0x50_def)

lemma in_range_256: "uint (256::uint16) < MAXADDRESS_04"
  by (simp add: MAXADDRESS_04_def)

lemma same_page:
  "(bit framAddr 8 \<longrightarrow> bit (i2c_addr h) 0) \<Longrightarrow> write_cell h framAddr = read_cell h framAddr"
  by (simp only: write_cell_def read_cell_def page_selector) (auto simp: page_def)

lemma roundtrip_same_page:
  assumes "answers base (i2c_addr h)" and "uint framAddr < MAXADDRESS_04"
    and "bit framAddr 8 \<longrightarrow> bit (i2c_addr h) 0"
  shows "readByte iw (chip_env base c0) h framAddr junk
           (snd (writeByte iw (chip_env base c0) h framAddr v w)) =
         (0, v, snd (writeByte iw (chip_env base c0) h framAddr v w)
            @ [BeginTransmission (i2c_addr h OR (ucast (drop_bit 8 framAddr) AND 1)),
               WireWrite (ucast framAddr), EndTransmission 0, RequestFrom (i2c_addr h) 1,
               WireRead (uint v)])"
  by (simp add: readByte_chip [OF assms(1,2)] writeByte_chip_cells [OF assms(1,2)]
      same_page [OF assms(3)])

text \<open>
  Claim C2 says that a byte written at any address below the capacity is read back. The
  read request of \<open>readArray\<close> goes to \<open>i2c_addr\<close> without the page bit that the
  address phase and \<open>writeArray\<close> fold in. With the selector \<open>0x50\<close>, the byte \<open>0xAB\<close>
  written at address 256 goes to selector \<open>0x51\<close>, the read request goes to \<open>0x50\<close>,
  and \<open>readByte\<close> returns the \<open>0x11\<close> held at address 0, with status 0 for both calls.
  Below address 256 the byte written is read back (lemma \<open>roundtrip_same_page\<close>).
\<close>

theorem roundtrip_fails_on_upper_page:
  "fst (writeByte Int32 chip_0x50 handle_0x50 256 0xAB []) = 0
   \<and> readByte Int32 chip_0x50 handle_0x50 256 0
         (snd (writeByte Int32 chip_0x50 handle_0x50 256 0xAB [])) =
       (0, 0x11,
        [BeginTransmission 0x51, WireWrite 0, WireWrite 0xAB, EndTransmission 0,
         BeginTransmission 0x51, WireWrite 0, EndTransmission 0,
         RequestFrom 0x50 1, WireRead 0x11])"
proof -
  let ?w = "snd (writeByte Int32 chip_0x50 handle_0x50 256 0xAB [])"
  have w: "writeByte Int32 chip_0x50 handle_0x50 256 0xAB [] =
      (0, [BeginTransmission 0x51, WireWrite 0, WireWrite 0xAB, EndTransmission 0])"
    unfolding chip_0x50_def
    by (simp add: writeByte_chip [OF answers_0x50 in_range_256]) (simp add: handle_0x50_def)
  have "cells (chip_after 0x50 (blank two_pages) ?w) = two_pages(256 := 0xAB)"
    unfolding chip_0x50_def
    by (simp add: writeByte_chip_cells [OF answers_0x50 in_range_256] write_cell_256
        chip_after_Nil blank_def)
  then have c: "cells (chip_after 0x50 (blank two_pages) ?w) (read_cell handle_0x50 256) = 0x11"
    by (simp add: read_cell_256 two_pages_def)
  have "readByte Int32 chip_0x50 handle_0x50 256 0 ?w =
      (0, 0x11, ?w @ [BeginTransmission 0x51, WireWrite 0, EndTransmission 0,
         RequestFrom 0x50 1, WireRead 0x11])"
    unfolding chip_0x50_def
    by (simp only: readByte_chip [OF answers_0x50 in_range_256] c [unfolded chip_0x50_def])
       (simp add: handle_0x50_def)
  with w show ?thesis
    by simp
qed


lemma toggle_test: "uint (b::byte) AND 2 ^ n = 2 ^ n \<longleftrightarrow> bit b n"
proof
  assume "uint b AND 2 ^ n = 2 ^ n"
  then have "uint b AND 2 ^ n \<noteq> 0"
    by simp
  then have "bit (uint b) n"
    by (simp add: and_exp_eq_0_iff_not_bit)
  then show "bit b n"
    by (simp add: bit_simps)
next
  assume "bit b n"
  then have "bit (uint b) n"
    by (simp add: bit_simps)
  then show "uint b AND 2 ^ n = 2 ^ n"
    by (intro bit_eqI) (auto simp: bit_simps)
qed

lemma toggle_clear: "bit b (unat bitNb) \<Longrightarrow> bitClear b bitNb = b XOR 2 ^ unat bitNb"
  unfolding bitClear_def by (intro bit_word_eqI) (auto simp: bit_simps)

lemma toggle_set: "\<not> bit b (unat bitNb) \<Longrightarrow> unat bitNb < 8 \<Longrightarrow> bitSet b bitNb = b XOR 2 ^ unat bitNb"
  unfolding bitSet_def by (intro bit_word_eqI) (auto simp: bit_simps)


lemma toggleBit_bytes:
  assumes "bitNb \<le> 7"
  shows "toggleBit iw E h framAddr bitNb junk w =
     writeByte iw E h framAddr
       (fst (snd (readByte iw E h framAddr junk w)) XOR push_bit (unat bitNb) 1)
       (snd (snd (readByte iw E h framAddr junk w)))"
proof -
  have "\<not> 7 < bitNb"
    using assms by simp
  moreover have "unat bitNb < 8"
    using assms by (simp add: word_le_nat_alt)
  ultimately show ?thesis
    by (simp add: toggleBit_def readByte_def writeArray_one case_prod_beta Let_def
        toggle_test toggle_clear toggle_set)
qed

lemma toggleBit_chip:
  assumes "answers base (i2c_addr h)" and "uint framAddr < MAXADDRESS_04" and "bitNb \<le> 7"
  shows "fst (toggleBit iw (chip_env base c0) h framAddr bitNb junk w) = 0"
    and "cells (chip_after base c0 (snd (toggleBit iw (chip_env base c0) h framAddr bitNb junk w))) =
      (cells (chip_after base c0 w))
        (write_cell h framAddr :=
           cells (chip_after base c0 w) (read_cell h framAddr) XOR push_bit (unat bitNb) 1)"
proof -
  show "fst (toggleBit iw (chip_env base c0) h framAddr bitNb junk w) = 0"
    by (simp only: toggleBit_bytes [OF assms(3)] writeByte_chip [OF assms(1,2)] fst_conv)
  have "cells (chip_after base c0 (snd (snd (readByte iw (chip_env base c0) h framAddr junk w)))) =
      cells (chip_after base c0 w)"
    by (rule readByte_chip_cells [OF assms(1,2)])
  moreover have "fst (snd (readByte iw (chip_env base c0) h framAddr junk w)) =
      cells (chip_after base c0 w) (read_cell h framAddr)"
    by (simp add: readByte_chip [OF assms(1,2)])
  ultimately show "cells (chip_after base c0
      (snd (toggleBit iw (chip_env base c0) h framAddr bitNb junk w))) =
      (cells (chip_after base c0 w))
        (write_cell h framAddr :=
           cells (chip_after base c0 w) (read_cell h framAddr) XOR push_bit (unat bitNb) 1)"
    by (simp only: toggleBit_bytes [OF assms(3)] writeByte_chip_cells [OF assms(1,2)])
qed


lemma toggle_same_page:
  assumes "answers base (i2c_addr h)" and "uint framAddr < MAXADDRESS_04" and "bitNb \<le> 7"
    and "bit framAddr 8 \<longrightarrow> bit (i2c_addr h) 0"
  shows "cells (chip_after base c0 (snd (toggleBit iw (chip_env base c0) h framAddr bitNb junk w))) =
      (cells (chip_after base c0 w))
        (read_cell h framAddr :=
           cells (chip_after base c0 w) (read_cell h framAddr) XOR push_bit (unat bitNb) 1)"
    and "cells (chip_after base c0
           (snd (toggleBit iw (chip_env base c0) h framAddr bitNb junk'
              (snd (toggleBit iw (chip_env base c0) h framAddr bitNb junk w))))) =
         cells (chip_after base c0 w)"
proof -
  note page = same_page [OF assms(4)]
  show one: "cells (chip_after base c0 (snd (toggleBit iw (chip_env base c0) h framAddr bitNb junk w))) =
      (cells (chip_after base c0 w))
        (read_cell h framAddr :=
           cells (chip_after base c0 w) (read_cell h framAddr) XOR push_bit (unat bitNb) 1)"
    for junk w
    by (simp only: toggleBit_chip(2) [OF assms(1-3)] page)
  show "cells (chip_after base c0
           (snd (toggleBit iw (chip_env base c0) h framAddr bitNb junk'
              (snd (toggleBit iw (chip_env base c0) h framAddr bitNb junk w))))) =
         cells (chip_after base c0 w)"
    by (simp only: one) (simp add: fun_eq_iff xor.assoc)
qed

text \<open>
  Claim C8 says that \<open>toggleBit\<close> flips one bit of the byte at the address and keeps
  the other seven, and that two calls restore the byte. At address 256 with the selector
  \<open>0x50\<close> the byte read is the one at address 0, for the reason given for C2: the
  byte \<open>0x22\<close> at address 256 becomes \<open>0x10\<close>, the \<open>0x11\<close> of address 0 with bit 0
  cleared, and a second call writes \<open>0x10\<close> again. Where the read and the write meet
  the same cell the bit is flipped and two calls restore the byte
  (lemma \<open>toggle_same_page\<close>).
\<close>

theorem toggle_fails_on_upper_page:
  "two_pages 256 = 0x22
   \<and> fst (toggleBit Int32 chip_0x50 handle_0x50 256 0 0 []) = 0
   \<and> cells (chip_after 0x50 (blank two_pages)
         (snd (toggleBit Int32 chip_0x50 handle_0x50 256 0 0 []))) 256 = 0x10
   \<and> cells (chip_after 0x50 (blank two_pages)
         (snd (toggleBit Int32 chip_0x50 handle_0x50 256 0 0
            (snd (toggleBit Int32 chip_0x50 handle_0x50 256 0 0 []))))) 256 = 0x10"
proof -
  have n: "(0::byte) \<le> 7"
    by simp
  note status = toggleBit_chip(1) [OF answers_0x50 in_range_256 n]
  note cells = toggleBit_chip(2) [OF answers_0x50 in_range_256 n]
  have a: "two_pages 256 = 0x22"
    by (simp add: two_pages_def)
  have b: "fst (toggleBit Int32 chip_0x50 handle_0x50 256 0 0 []) = 0"
    unfolding chip_0x50_def by (rule status)
  have c: "cells (chip_after 0x50 (blank two_pages)
         (snd (toggleBit Int32 chip_0x50 handle_0x50 256 0 0 []))) = two_pages(256 := 0x10)"
    unfolding chip_0x50_def
    by (simp only: cells read_cell_256 write_cell_256 chip_after_Nil)
       (simp add: blank_def two_pages_def)
  have d: "cells (chip_after 0x50 (blank two_pages)
         (snd (toggleBit Int32 chip_0x50 handle_0x50 256 0 0
            (snd (toggleBit Int32 chip_0x50 handle_0x50 256 0 0 []))))) =
         (two_pages(256 := 0x10))(256 := 0x10)"
    using c unfolding chip_0x50_def
    by (simp only: cells [where w = "snd (toggleBit Int32 (chip_env 0x50 (blank two_pages))
          handle_0x50 256 0 0 [])"] read_cell_256 write_cell_256)
       (simp add: two_pages_def)
  from a b c d show ?thesis
    by simp
qed

end
